theory Spec2Isabelle
  imports Complex_Main
begin

section \<open>The playback synchronisation engine of the QT storytelling front end\<close>

text \<open>
  The front-end script is one asynchronous closure over a handful of mutable variables,
  the \<open>CONFIG\<close> object, the audio element, the face image element and the browser's
  timers. The embedding below makes all of that one record that every function of the
  script takes and returns. Times of cues and audio positions are seconds, timer delays
  and the wall clock are milliseconds, both kept as exact reals: the rounding of floating
  point and the browser's clamping of timer delays are not modelled.
\<close>

subsection \<open>Story data\<close>

text \<open>
  A story document is \<open>{name, audio_name, audio, emotions: [{time, emotion}]}\<close>.
  The field \<open>consumed\<close> is added to each cue by \<open>selectStory\<close>; before that it is
  \<open>undefined\<close>, which \<open>!timepoint.consumed\<close> reads like \<open>false\<close>.
\<close>

record cue =
  time :: real
  emotion :: string
  consumed :: bool

record story =
  name :: string
  audio_name :: string
  audio :: string
  emotions :: "cue list"

subsection \<open>Property lookup on the \<open>CONFIG\<close> tables\<close>

text \<open>
  \<open>CONFIG.emotionImageMap\<close> is an object literal, so \<open>CONFIG.emotionImageMap[k]\<close>
  first looks at the literal's own properties and then at \<open>Object.prototype\<close>.
  The values a lookup can produce are a string of the literal, a built-in function, the
  prototype object itself (\<open>__proto__\<close>) or \<open>undefined\<close>.
\<close>

datatype js_val = JUndefined | JString string | JFunction string | JObject

fun truthy :: "js_val \<Rightarrow> bool" where
  "truthy JUndefined = False"
| "truthy (JString v) = (v \<noteq> [])"
| "truthy (JFunction f) = True"
| "truthy JObject = True"

text \<open>The text a template literal \<open>`${v}`\<close> produces for a value.\<close>

fun template_str :: "js_val \<Rightarrow> string" where
  "template_str JUndefined = ''undefined''"
| "template_str (JString v) = v"
| "template_str (JFunction f) = ''function '' @ f @ ''() { [native code] }''"
| "template_str JObject = ''[object Object]''"

definition object_prototype :: "(string \<times> js_val) list" where
  "object_prototype =
     [(''constructor'', JFunction ''Object''),
      (''__defineGetter__'', JFunction ''__defineGetter__''),
      (''__defineSetter__'', JFunction ''__defineSetter__''),
      (''hasOwnProperty'', JFunction ''hasOwnProperty''),
      (''__lookupGetter__'', JFunction ''__lookupGetter__''),
      (''__lookupSetter__'', JFunction ''__lookupSetter__''),
      (''isPrototypeOf'', JFunction ''isPrototypeOf''),
      (''propertyIsEnumerable'', JFunction ''propertyIsEnumerable''),
      (''toString'', JFunction ''toString''),
      (''valueOf'', JFunction ''valueOf''),
      (''toLocaleString'', JFunction ''toLocaleString''),
      (''__proto__'', JObject)]"

definition js_get :: "(string \<times> string) list \<Rightarrow> string \<Rightarrow> js_val" where
  "js_get obj k =
     (case map_of obj k of
        Some v \<Rightarrow> JString v
      | None \<Rightarrow> (case map_of object_prototype k of Some v \<Rightarrow> v | None \<Rightarrow> JUndefined))"

subsection \<open>Configuration\<close>

definition qtBase :: string where
  "qtBase = ''/qt/''"

text \<open>The two bytes \<open>0xC3 0xA8\<close> are the letter e with a grave accent in UTF-8.\<close>

definition colere :: string where
  "colere = ''col'' @ [CHR 0xC3, CHR 0xA8] @ ''re''"

definition emotionImageMap :: "(string \<times> string) list" where
  "emotionImageMap =
     [(''affection'', ''affection.png''),
      (colere, colere @ ''.png''),
      (''confusion'', ''confusion.png''),
      (''cri'', ''cri.png''),
      (''embarassement'', ''embarassement.png''),
      (''joie'', ''joie.png''),
      (''neutre'', ''neutre.png''),
      (''peur'', ''peur.png''),
      (''surprise'', ''surprise.png''),
      (''timide'', ''timide.png''),
      (''tristesse'', ''tristesse.png'')]"

definition blinkingClosed :: string where "blinkingClosed = ''normal.png''"
definition blinkingOpen :: string where "blinkingOpen = ''normal4.png''"
definition normalClosed :: string where "normalClosed = ''normal2.png''"
definition normalOpen :: string where "normalOpen = ''normal3.png''"

definition blinkDuration :: real where "blinkDuration = 200"
definition mouthCloseDuration :: real where "mouthCloseDuration = 250"
definition emotionDelay :: real where "emotionDelay = 1000"

subsection \<open>The browser: timers and the audio element\<close>

text \<open>
  A pending one-shot timer is its identifier, the wall-clock time at which it is due and
  the closure it runs. The script creates four kinds of closure. The closure of a cue
  captures the cue object \<open>timepoint\<close>; cue objects live inside \<open>CONFIG.stories\<close>, so
  the captured reference is the index of the story and the index of the cue in it.
\<close>

datatype callback = FireCue nat nat | ClearEmotion | BlinkOff | MouthOpen

record timer =
  tid :: nat
  due :: real
  cb :: callback

record media =
  src :: string
  currentTime :: real
  paused :: bool

text \<open>
  \<open>emotionSchedule\<close> is a reference: either the empty array it is initialised with
  (\<open>None\<close>) or the \<open>emotions\<close> array of one story of \<open>CONFIG.stories\<close> (its index).
\<close>

record state =
  stories :: "story list"
  emotionSchedule :: "nat option"
  timeouts :: "nat list"
  blinking :: bool
  closedMouth :: bool
  keepMouthShut :: bool
  currentEmotion :: "string option"
  isPaused :: bool
  hasEnded :: bool
  faceImage :: string
  audio_el :: media
  timers :: "timer list"
  next_id :: nat
  now :: real

text \<open>\<open>setTimeout\<close> hands out a fresh identifier; \<open>clearTimeout\<close> of an identifier that
  is no longer pending does nothing.\<close>

definition setTimeout :: "callback \<Rightarrow> real \<Rightarrow> state \<Rightarrow> nat \<times> state" where
  "setTimeout f delay s =
     (next_id s,
      s\<lparr>timers := timers s @ [\<lparr>tid = next_id s, due = now s + delay, cb = f\<rparr>],
        next_id := Suc (next_id s)\<rparr>)"

definition clearTimeout :: "nat \<Rightarrow> state \<Rightarrow> state" where
  "clearTimeout timeoutId s = s\<lparr>timers := filter (\<lambda>t. tid t \<noteq> timeoutId) (timers s)\<rparr>"

text \<open>The audio element: \<open>play()\<close>, \<open>pause()\<close>, and assigning \<open>src\<close>, which loads the
  new resource: playback stops and the position returns to the start.\<close>

definition audio_play :: "state \<Rightarrow> state" where
  "audio_play s = s\<lparr>audio_el := (audio_el s)\<lparr>paused := False\<rparr>\<rparr>"

definition audio_pause :: "state \<Rightarrow> state" where
  "audio_pause s = s\<lparr>audio_el := (audio_el s)\<lparr>paused := True\<rparr>\<rparr>"

definition audio_set_src :: "string \<Rightarrow> state \<Rightarrow> state" where
  "audio_set_src url s = s\<lparr>audio_el := \<lparr>src = url, currentTime = 0, paused = True\<rparr>\<rparr>"

subsection \<open>Helper functions of the script\<close>

text \<open>\<open>displayEmotion\<close>: the guard is the truthiness of the looked-up value.\<close>

definition displayEmotion :: "string \<Rightarrow> state \<Rightarrow> state" where
  "displayEmotion e s =
     (if truthy (js_get emotionImageMap e) then
        (let s1 = s\<lparr>currentEmotion := Some e\<rparr>;
             s2 = s1\<lparr>faceImage := qtBase @ template_str (js_get emotionImageMap e)\<rparr>
         in snd (setTimeout ClearEmotion emotionDelay s2))
      else s)"

text \<open>\<open>!currentEmotion\<close> holds for \<open>null\<close> and for the empty string.\<close>

definition no_emotion :: "string option \<Rightarrow> bool" where
  "no_emotion e = (case e of None \<Rightarrow> True | Some v \<Rightarrow> v = [])"

text \<open>The three interval callbacks of \<open>startClock\<close>.\<close>

definition renderTick :: "state \<Rightarrow> state" where
  "renderTick s =
     (if \<not> isPaused s \<and> no_emotion (currentEmotion s) then
        s\<lparr>faceImage :=
            (if blinking s then
               (if closedMouth s \<or> keepMouthShut s then qtBase @ blinkingClosed
                else qtBase @ blinkingOpen)
             else
               (if closedMouth s \<or> keepMouthShut s then qtBase @ normalClosed
                else qtBase @ normalOpen))\<rparr>
      else s)"

definition blinkTick :: "state \<Rightarrow> state" where
  "blinkTick s = snd (setTimeout BlinkOff blinkDuration (s\<lparr>blinking := True\<rparr>))"

definition mouthTick :: "state \<Rightarrow> state" where
  "mouthTick s = snd (setTimeout MouthOpen mouthCloseDuration (s\<lparr>closedMouth := True\<rparr>))"

text \<open>\<open>startClock\<close> registers the three intervals; each takes one timer identifier.\<close>

definition startClock :: "state \<Rightarrow> state" where
  "startClock s = s\<lparr>next_id := next_id s + 3\<rparr>"

text \<open>\<open>clearScheduledEmotions\<close>.\<close>

definition clearScheduledEmotions :: "state \<Rightarrow> state" where
  "clearScheduledEmotions s = (fold clearTimeout (timeouts s) s)\<lparr>timeouts := []\<rparr>"

text \<open>
  The body of the \<open>forEach\<close> of \<open>scheduleEmotions\<close> for the cue \<open>timepoint\<close>, which is
  cue \<open>j\<close> of story \<open>i\<close>, and the loop over the array.
\<close>

definition schedule_cue :: "nat \<Rightarrow> nat \<Rightarrow> cue \<Rightarrow> state \<Rightarrow> state" where
  "schedule_cue i j timepoint s =
     (let delay = (time timepoint - currentTime (audio_el s)) * 1000 in
      if \<not> consumed timepoint \<and> delay > 0 then
        (let (timeoutId, s1) = setTimeout (FireCue i j) delay s
         in s1\<lparr>timeouts := timeouts s1 @ [timeoutId]\<rparr>)
      else s)"

fun schedule_loop :: "nat \<Rightarrow> nat \<Rightarrow> cue list \<Rightarrow> state \<Rightarrow> state" where
  "schedule_loop i j [] s = s"
| "schedule_loop i j (timepoint # rest) s =
     schedule_loop i (Suc j) rest (schedule_cue i j timepoint s)"

definition scheduleEmotions :: "state \<Rightarrow> state" where
  "scheduleEmotions s =
     (let s1 = clearScheduledEmotions s in
      case emotionSchedule s1 of
        None \<Rightarrow> s1
      | Some i \<Rightarrow> schedule_loop i 0 (emotions (stories s1 ! i)) s1)"

definition pauseAudio :: "state \<Rightarrow> state" where
  "pauseAudio s =
     clearScheduledEmotions ((audio_pause s)\<lparr>isPaused := True, keepMouthShut := True\<rparr>)"

definition resumeAudio :: "state \<Rightarrow> state" where
  "resumeAudio s =
     (let s1 = s\<lparr>isPaused := False\<rparr> in
      if \<not> hasEnded s1 then
        scheduleEmotions (audio_play (s1\<lparr>keepMouthShut := False\<rparr>))
      else s1)"

text \<open>
  \<open>selectStory\<close>: \<open>CONFIG.stories[index]\<close> is \<open>undefined\<close> for an index outside the
  array, and reading \<open>story.emotions\<close> of it throws a \<open>TypeError\<close> before anything has
  been assigned. The result is the exception, if any, and the state left behind.
\<close>

datatype js_error = TypeError

definition selectStory :: "int \<Rightarrow> state \<Rightarrow> js_error option \<times> state" where
  "selectStory index s =
     (if 0 \<le> index \<and> index < int (length (stories s)) then
        (let i = nat index;
             s1 = s\<lparr>emotionSchedule := Some i\<rparr>;
             st = stories s1 ! i;
             s2 = s1\<lparr>stories := (stories s1)
                    [i := st\<lparr>emotions := map (\<lambda>e. e\<lparr>consumed := False\<rparr>) (emotions st)\<rparr>]\<rparr>
         in (None, audio_set_src (audio (stories s2 ! i)) s2))
      else (Some TypeError, s))"

text \<open>The click listener of a story button and the \<open>ended\<close> listener of the audio.\<close>

definition click :: "int \<Rightarrow> state \<Rightarrow> js_error option \<times> state" where
  "click index s =
     (case selectStory index s of
        (Some err, s1) \<Rightarrow> (Some err, s1)
      | (None, s1) \<Rightarrow> (None, resumeAudio (s1\<lparr>hasEnded := False\<rparr>)))"

definition ended :: "state \<Rightarrow> state" where
  "ended s = s\<lparr>keepMouthShut := True, hasEnded := True\<rparr>"

subsection \<open>Running a timer\<close>

definition set_consumed :: "nat \<Rightarrow> nat \<Rightarrow> state \<Rightarrow> state" where
  "set_consumed i j s =
     (let st = stories s ! i in
      s\<lparr>stories := (stories s)
          [i := st\<lparr>emotions := (emotions st)[j := (emotions st ! j)\<lparr>consumed := True\<rparr>]\<rparr>]\<rparr>)"

fun run_callback :: "callback \<Rightarrow> state \<Rightarrow> state" where
  "run_callback (FireCue i j) s =
     (let s1 = set_consumed i j s
      in displayEmotion (emotion (emotions (stories s1 ! i) ! j)) s1)"
| "run_callback ClearEmotion s = s\<lparr>currentEmotion := None\<rparr>"
| "run_callback BlinkOff s = s\<lparr>blinking := False\<rparr>"
| "run_callback MouthOpen s = s\<lparr>closedMouth := False\<rparr>"

text \<open>The browser takes a pending timer off its list and runs the closure.\<close>

definition fire :: "nat \<Rightarrow> state \<Rightarrow> state" where
  "fire timeoutId s =
     (case find (\<lambda>t. tid t = timeoutId) (timers s) of
        None \<Rightarrow> s
      | Some t \<Rightarrow> run_callback (cb t) (clearTimeout timeoutId s))"

subsection \<open>Start-up and events\<close>

text \<open>
  The state once \<open>downloadStories\<close> has filled \<open>CONFIG.stories\<close>, and the rest of the
  initialisation: \<open>selectStory(0)\<close>, then \<open>startClock()\<close>, which an exception of
  \<open>selectStory\<close> keeps from running.
\<close>

definition loaded :: "story list \<Rightarrow> string \<Rightarrow> state" where
  "loaded sts img =
     \<lparr>stories = sts, emotionSchedule = None, timeouts = [],
      blinking = False, closedMouth = False, keepMouthShut = True,
      currentEmotion = None, isPaused = False, hasEnded = False,
      faceImage = img, audio_el = \<lparr>src = [], currentTime = 0, paused = True\<rparr>,
      timers = [], next_id = 1, now = 0\<rparr>"

definition init :: "story list \<Rightarrow> string \<Rightarrow> state" where
  "init sts img =
     (case selectStory 0 (loaded sts img) of
        (Some err, s) \<Rightarrow> s
      | (None, s) \<Rightarrow> startClock s)"

text \<open>
  What can happen next: a call of one of the control functions, a listener, an interval
  tick, a due timer, or time passing (the audio position moves only while it plays).
  The \<open>mouseover\<close> listener of a story button plays the preview on an audio object of
  its own and touches nothing of the state; it is left out.
\<close>

datatype event =
    SelectStory int | Click int | Resume | Pause | Ended
  | RenderTick | BlinkTick | MouthTick | Fire nat | Elapse real | Progress real

definition elapse :: "real \<Rightarrow> state \<Rightarrow> state" where
  "elapse d s = (if 0 \<le> d then s\<lparr>now := now s + d\<rparr> else s)"

definition progress :: "real \<Rightarrow> state \<Rightarrow> state" where
  "progress a s =
     (if 0 \<le> a \<and> \<not> paused (audio_el s)
      then s\<lparr>audio_el := (audio_el s)\<lparr>currentTime := currentTime (audio_el s) + a\<rparr>\<rparr>
      else s)"

definition is_due :: "state \<Rightarrow> timer \<Rightarrow> bool" where
  "is_due s t = (due t \<le> now s)"

fun step :: "event \<Rightarrow> state \<Rightarrow> state" where
  "step (SelectStory index) s = snd (selectStory index s)"
| "step (Click index) s = snd (click index s)"
| "step Resume s = resumeAudio s"
| "step Pause s = pauseAudio s"
| "step Ended s = ended (audio_pause s)"
| "step RenderTick s = renderTick s"
| "step BlinkTick s = blinkTick s"
| "step MouthTick s = mouthTick s"
| "step (Fire timeoutId) s =
     (if list_ex (\<lambda>t. tid t = timeoutId \<and> is_due s t) (timers s) then fire timeoutId s else s)"
| "step (Elapse d) s = elapse d s"
| "step (Progress a) s = progress a s"

definition run :: "event list \<Rightarrow> state \<Rightarrow> state" where
  "run evs s = fold step evs s"

subsection \<open>Pending triggers\<close>

text \<open>
  The pending cue triggers of a state, each with the cue it will fire (story index and
  cue index) and the delay that remains until it is due, and the cues alone.
\<close>

fun cue_fires :: "real \<Rightarrow> timer list \<Rightarrow> (nat \<times> nat \<times> real) list" where
  "cue_fires t0 [] = []"
| "cue_fires t0 (t # ts) =
     (case cb t of
        FireCue i j \<Rightarrow> (i, j, due t - t0) # cue_fires t0 ts
      | _ \<Rightarrow> cue_fires t0 ts)"

definition pending_fires :: "state \<Rightarrow> (nat \<times> nat \<times> real) list" where
  "pending_fires s = cue_fires (now s) (timers s)"

fun cue_refs :: "timer list \<Rightarrow> (nat \<times> nat) list" where
  "cue_refs [] = []"
| "cue_refs (t # ts) =
     (case cb t of FireCue i j \<Rightarrow> (i, j) # cue_refs ts | _ \<Rightarrow> cue_refs ts)"

definition pending_cues :: "state \<Rightarrow> (nat \<times> nat) list" where
  "pending_cues s = cue_refs (timers s)"

definition cue_at :: "state \<Rightarrow> nat \<Rightarrow> nat \<Rightarrow> cue" where
  "cue_at s i j = emotions (stories s ! i) ! j"

definition position :: "state \<Rightarrow> real" where
  "position s = currentTime (audio_el s)"

text \<open>
  The triggers that a resume is specified to arm for the cue array \<open>cs\<close> of story
  \<open>i\<close> at audio position \<open>pos\<close>: one for every cue that is not consumed and whose
  \<open>delay = time - pos\<close> is positive, at that delay (in milliseconds). This definition
  follows the wording of the specification; the theorems below compare it with what
  \<open>scheduleEmotions\<close> leaves in the browser's timer list.
\<close>

definition armed :: "nat \<Rightarrow> nat \<Rightarrow> real \<Rightarrow> cue list \<Rightarrow> (nat \<times> nat \<times> real) list" where
  "armed i j pos cs =
     map (\<lambda>(k, c). (i, k, (time c - pos) * 1000))
       (filter (\<lambda>(k, c). \<not> consumed c \<and> time c - pos > 0) (enumerate j cs))"

subsection \<open>The invariant of the scheduler\<close>

text \<open>
  Timer identifiers are unique and below the next one to be handed out; every pending cue
  trigger is recorded in \<open>timeouts\<close>; no two pending triggers fire the same cue; a
  cue with a pending trigger exists and is not consumed; \<open>emotionSchedule\<close> refers to
  a loaded story.
\<close>

definition is_cue_timer :: "timer \<Rightarrow> bool" where
  "is_cue_timer t = (case cb t of FireCue i j \<Rightarrow> True | _ \<Rightarrow> False)"

definition ids_fresh :: "state \<Rightarrow> bool" where
  "ids_fresh s =
     (list_all (\<lambda>t. tid t < next_id s) (timers s) \<and> distinct (map tid (timers s)))"

definition tracked :: "state \<Rightarrow> bool" where
  "tracked s = list_all (\<lambda>t. is_cue_timer t \<longrightarrow> tid t \<in> set (timeouts s)) (timers s)"

definition one_per_cue :: "state \<Rightarrow> bool" where
  "one_per_cue s = distinct (pending_cues s)"

definition cues_live :: "state \<Rightarrow> bool" where
  "cues_live s =
     list_all (\<lambda>p. fst p < length (stories s) \<and> snd p < length (emotions (stories s ! fst p)) \<and>
                  \<not> consumed (cue_at s (fst p) (snd p))) (pending_cues s)"

definition schedule_ok :: "state \<Rightarrow> bool" where
  "schedule_ok s =
     (case emotionSchedule s of None \<Rightarrow> True | Some i \<Rightarrow> i < length (stories s))"

definition sched_inv :: "state \<Rightarrow> bool" where
  "sched_inv s =
     (ids_fresh s \<and> tracked s \<and> one_per_cue s \<and> cues_live s \<and> schedule_ok s)"

subsection \<open>Time passing with the audio\<close>

text \<open>
  \<open>fire_due\<close> runs the timers that are due, in the order of their due times (the sort
  is stable, so equal due times run in the order of creation). \<open>advance d\<close> is \<open>d\<close>
  milliseconds of undisturbed playback: wall clock and audio position move together and
  the due timers run. The timers of one period run at its end; playback in which every
  timer runs on time is a list of periods that end at the due times.
\<close>

definition fire_due :: "state \<Rightarrow> state" where
  "fire_due s = fold (\<lambda>t. fire (tid t)) (sort_key due (filter (is_due s) (timers s))) s"

definition advance :: "real \<Rightarrow> state \<Rightarrow> state" where
  "advance d s = fire_due (progress (d / 1000) (elapse d s))"







fun stays_on :: "nat \<Rightarrow> nat \<Rightarrow> event \<Rightarrow> bool" where
  "stays_on k n (SelectStory index) = (index = int k \<or> index < 0 \<or> int n \<le> index)"
| "stays_on k n (Click index) = (index = int k \<or> index < 0 \<or> int n \<le> index)"
| "stays_on k n ev = True"

definition only_story :: "nat \<Rightarrow> state \<Rightarrow> bool" where
  "only_story k s =
     (emotionSchedule s = Some k \<and> list_all (\<lambda>p. fst p = k) (pending_cues s))"

subsection \<open>Example stories and states\<close>

text \<open>
  Two stories as the generator writes them; the second has a cue tagged
  \<open>[constructor]\<close> and one tagged \<open>[sommeil]\<close>, neither of which is a key of
  \<open>CONFIG.emotionImageMap\<close>. \<open>page\<close> is the page once it has loaded them.
\<close>

definition tale_a :: story where
  "tale_a = \<lparr>name = ''a'', audio_name = ''/audio/audio_story/a_name.mp3'',
          audio = ''/audio/audio_story/a.mp3'',
          emotions = [\<lparr>time = 2, emotion = ''joie'', consumed = False\<rparr>,
                      \<lparr>time = 5/2, emotion = ''peur'', consumed = False\<rparr>,
                      \<lparr>time = 5, emotion = ''tristesse'', consumed = False\<rparr>]\<rparr>"

definition tale_b :: story where
  "tale_b = \<lparr>name = ''b'', audio_name = ''/audio/audio_story/b_name.mp3'',
          audio = ''/audio/audio_story/b.mp3'',
          emotions = [\<lparr>time = 1, emotion = ''constructor'', consumed = False\<rparr>,
                      \<lparr>time = 3, emotion = ''sommeil'', consumed = False\<rparr>]\<rparr>"

definition page :: state where
  "page = init [tale_a, tale_b] (qtBase @ normalClosed)"

text \<open>
  The audio of the first story has ended and \<open>pauseAudio\<close> has run since.
\<close>

definition ended_then_paused :: state where
  "ended_then_paused = run [Click 0, Elapse 3000, Progress 3, Ended, Pause] page"

text \<open>
  The first story plays and the face has been drawn once, mouth open.
\<close>

definition playing_mouth_open :: state where
  "playing_mouth_open = run [Click 0, Elapse 100, Progress (1/10), RenderTick] page"

text \<open>
  The first story plays; its first cue has fired at 2 s and its second at 2.5 s.
\<close>

definition second_overlay :: state where
  "second_overlay =
     run [Click 0, Elapse 2000, Progress 2, Fire 4, Elapse 500, Progress (1/2), Fire 5] page"





text \<open>
  The first story has just been started by a click.
\<close>

definition first_story_armed :: state where
  "first_story_armed = run [Click 0] page"

text \<open>
  The second story has played for one second and the trigger of its first cue, the one
  tagged \<open>[constructor]\<close>, has run.
\<close>

definition inherited_key_fired :: state where
  "inherited_key_fired = run [Click 1, Elapse 1000, Progress 1, Fire 4] page"

section \<open>Properties\<close>

subsection \<open>Unfolding the script on concrete states\<close>

lemmas script_defs = init_def loaded_def selectStory_def startClock_def audio_set_src_def
  run_def click_def resumeAudio_def pauseAudio_def ended_def scheduleEmotions_def
  clearScheduledEmotions_def schedule_cue_def setTimeout_def clearTimeout_def audio_play_def
  audio_pause_def elapse_def progress_def fire_def set_consumed_def displayEmotion_def
  js_get_def emotionImageMap_def object_prototype_def colere_def qtBase_def emotionDelay_def
  is_due_def renderTick_def no_emotion_def normalOpen_def normalClosed_def blinkingClosed_def
  blinkingOpen_def blinkTick_def mouthTick_def blinkDuration_def mouthCloseDuration_def

lemmas demo_defs = tale_a_def tale_b_def page_def

lemmas model_defs = pending_fires_def pending_cues_def cue_at_def position_def armed_def
  fire_due_def advance_def

lemmas inv_defs = sched_inv_def ids_fresh_def tracked_def one_per_cue_def cues_live_def
  schedule_ok_def pending_cues_def cue_at_def

subsection \<open>Cancelling and arming\<close>

lemma cue_fires_append: "cue_fires t0 (xs @ ys) = cue_fires t0 xs @ cue_fires t0 ys"
  by (induction xs) (auto split: callback.splits)


lemma cue_fires_none:
  "list_all (\<lambda>t. \<not> is_cue_timer t) ts \<Longrightarrow> cue_fires t0 ts = []"
  by (induction ts) (auto simp: is_cue_timer_def split: callback.splits)

lemma fold_clearTimeout:
  "fold clearTimeout ids s = s\<lparr>timers := filter (\<lambda>t. tid t \<notin> set ids) (timers s)\<rparr>"
proof (induction ids arbitrary: s)
  case Nil
  show ?case by simp
next
  case (Cons a ids)
  have "fold clearTimeout (a # ids) s = fold clearTimeout ids (clearTimeout a s)"
    by simp
  also have "\<dots> = (clearTimeout a s)
      \<lparr>timers := filter (\<lambda>t. tid t \<notin> set ids) (timers (clearTimeout a s))\<rparr>"
    by (rule Cons)
  also have "\<dots> = s\<lparr>timers := filter (\<lambda>t. tid t \<notin> set (a # ids)) (timers s)\<rparr>"
    by (simp add: clearTimeout_def)
  finally show ?case .
qed

lemma clearScheduledEmotions_eq:
  "clearScheduledEmotions s =
     s\<lparr>timers := filter (\<lambda>t. tid t \<notin> set (timeouts s)) (timers s), timeouts := []\<rparr>"
  by (simp add: clearScheduledEmotions_def fold_clearTimeout)

lemma tracked_cleared:
  "list_all (\<lambda>t. is_cue_timer t \<longrightarrow> tid t \<in> set ids) ts \<Longrightarrow>
   cue_fires t0 (filter (\<lambda>t. tid t \<notin> set ids) ts) = []"
  by (rule cue_fires_none) (auto simp: list_all_iff)

lemma schedule_cue_fields [simp]:
  "stories (schedule_cue i j c s) = stories s"
  "audio_el (schedule_cue i j c s) = audio_el s"
  "now (schedule_cue i j c s) = now s"
  "emotionSchedule (schedule_cue i j c s) = emotionSchedule s"
  "isPaused (schedule_cue i j c s) = isPaused s"
  "hasEnded (schedule_cue i j c s) = hasEnded s"
  "keepMouthShut (schedule_cue i j c s) = keepMouthShut s"
  "currentEmotion (schedule_cue i j c s) = currentEmotion s"
  "faceImage (schedule_cue i j c s) = faceImage s"
  by (simp_all add: schedule_cue_def setTimeout_def Let_def)

lemma schedule_loop_fields [simp]:
  "stories (schedule_loop i j cs s) = stories s"
  "audio_el (schedule_loop i j cs s) = audio_el s"
  "now (schedule_loop i j cs s) = now s"
  "emotionSchedule (schedule_loop i j cs s) = emotionSchedule s"
  "isPaused (schedule_loop i j cs s) = isPaused s"
  "hasEnded (schedule_loop i j cs s) = hasEnded s"
  "keepMouthShut (schedule_loop i j cs s) = keepMouthShut s"
  "currentEmotion (schedule_loop i j cs s) = currentEmotion s"
  "faceImage (schedule_loop i j cs s) = faceImage s"
  by (induction cs arbitrary: j s; simp)+

lemma armed_Cons:
  "armed i j pos (c # cs) =
     (if \<not> consumed c \<and> time c - pos > 0 then [(i, j, (time c - pos) * 1000)] else [])
     @ armed i (Suc j) pos cs"
  by (simp add: armed_def)

lemma pending_fires_schedule_loop:
  "pending_fires (schedule_loop i j cs s) = pending_fires s @ armed i j (position s) cs"
proof (induction cs arbitrary: j s)
  case Nil
  show ?case by (simp add: armed_def)
next
  case (Cons c cs)
  have step: "pending_fires (schedule_cue i j c s) =
      pending_fires s @
      (if \<not> consumed c \<and> time c - position s > 0 then [(i, j, (time c - position s) * 1000)] else [])"
    by (simp add: schedule_cue_def setTimeout_def pending_fires_def cue_fires_append position_def)
  have pos: "position (schedule_cue i j c s) = position s"
    by (simp add: schedule_cue_def setTimeout_def position_def)
  show ?case
    by (simp only: schedule_loop.simps Cons.IH step pos armed_Cons append_assoc)
qed

lemma pending_fires_cleared:
  assumes "tracked s"
  shows "pending_fires (clearScheduledEmotions s) = []"
  using tracked_cleared [OF assms [unfolded tracked_def]]
  by (simp add: clearScheduledEmotions_eq pending_fires_def)

lemma clearScheduledEmotions_fields [simp]:
  "stories (clearScheduledEmotions s) = stories s"
  "audio_el (clearScheduledEmotions s) = audio_el s"
  "now (clearScheduledEmotions s) = now s"
  "emotionSchedule (clearScheduledEmotions s) = emotionSchedule s"
  "isPaused (clearScheduledEmotions s) = isPaused s"
  "hasEnded (clearScheduledEmotions s) = hasEnded s"
  "keepMouthShut (clearScheduledEmotions s) = keepMouthShut s"
  "currentEmotion (clearScheduledEmotions s) = currentEmotion s"
  "faceImage (clearScheduledEmotions s) = faceImage s"
  "next_id (clearScheduledEmotions s) = next_id s"
  "timeouts (clearScheduledEmotions s) = []"
  by (simp_all add: clearScheduledEmotions_eq)

lemma position_clearScheduledEmotions [simp]:
  "position (clearScheduledEmotions s) = position s"
  by (simp add: position_def)

lemma pending_fires_scheduleEmotions:
  assumes "tracked s"
  shows "pending_fires (scheduleEmotions s) =
           (case emotionSchedule s of None \<Rightarrow> []
            | Some i \<Rightarrow> armed i 0 (position s) (emotions (stories s ! i)))"
  by (simp add: scheduleEmotions_def Let_def pending_fires_schedule_loop
      pending_fires_cleared [OF assms] split: option.splits)

lemma cue_refs_fires: "map (\<lambda>(i, j, r). (i, j)) (cue_fires t0 ts) = cue_refs ts"
  by (induction ts) (auto split: callback.splits)

lemma pending_cues_fires: "pending_cues s = map (\<lambda>(i, j, r). (i, j)) (pending_fires s)"
  by (simp add: pending_cues_def pending_fires_def cue_refs_fires)

lemma set_cue_refs:
  "set (cue_refs ts) = {(i, j) | t i j. t \<in> set ts \<and> cb t = FireCue i j}"
  by (induction ts) (auto split: callback.splits)

lemma cue_refs_append: "cue_refs (xs @ ys) = cue_refs xs @ cue_refs ys"
  by (induction xs) (auto split: callback.splits)

lemma cue_refs_filter_subset: "set (cue_refs (filter Q ts)) \<subseteq> set (cue_refs ts)"
  by (auto simp: set_cue_refs)

lemma distinct_cue_refs_filter:
  "distinct (cue_refs ts) \<Longrightarrow> distinct (cue_refs (filter Q ts))"
proof (induction ts)
  case Nil
  show ?case by simp
next
  case (Cons t ts)
  then show ?case
    using cue_refs_filter_subset [of Q ts]
    by (auto split: callback.splits)
qed

lemma cue_refs_unique:
  "distinct (cue_refs ts) \<Longrightarrow> t \<in> set ts \<Longrightarrow> t' \<in> set ts \<Longrightarrow>
   cb t = FireCue i j \<Longrightarrow> cb t' = FireCue i j \<Longrightarrow> t = t'"
proof (induction ts)
  case Nil
  then show ?case by simp
next
  case (Cons x xs)
  have in_refs: "\<And>u. u \<in> set xs \<Longrightarrow> cb u = FireCue i j \<Longrightarrow> (i, j) \<in> set (cue_refs xs)"
    by (auto simp: set_cue_refs)
  from Cons show ?case
    by (auto split: callback.splits dest: in_refs)
qed

lemma cue_refs_removed:
  assumes "distinct (cue_refs ts)" "t \<in> set ts" "cb t = FireCue i j"
  shows "(i, j) \<notin> set (cue_refs (filter (\<lambda>x. tid x \<noteq> tid t) ts))"
proof
  assume "(i, j) \<in> set (cue_refs (filter (\<lambda>x. tid x \<noteq> tid t) ts))"
  then obtain u where u: "u \<in> set ts" "tid u \<noteq> tid t" "cb u = FireCue i j"
    by (auto simp: set_cue_refs)
  with assms have "u = t" by (auto dest: cue_refs_unique)
  with u show False by simp
qed

subsection \<open>The invariant is kept by every event\<close>

lemma sched_inv_irrelevant [simp]:
  "sched_inv (s\<lparr>blinking := b\<rparr>) = sched_inv s"
  "sched_inv (s\<lparr>closedMouth := b\<rparr>) = sched_inv s"
  "sched_inv (s\<lparr>keepMouthShut := b\<rparr>) = sched_inv s"
  "sched_inv (s\<lparr>currentEmotion := e\<rparr>) = sched_inv s"
  "sched_inv (s\<lparr>isPaused := b\<rparr>) = sched_inv s"
  "sched_inv (s\<lparr>hasEnded := b\<rparr>) = sched_inv s"
  "sched_inv (s\<lparr>faceImage := img\<rparr>) = sched_inv s"
  "sched_inv (s\<lparr>audio_el := a\<rparr>) = sched_inv s"
  "sched_inv (s\<lparr>now := n\<rparr>) = sched_inv s"
  by (simp_all add: inv_defs split: option.splits)

lemma sched_inv_add_timer:
  assumes "sched_inv s" "\<not> is_cue_timer \<lparr>tid = next_id s, due = d, cb = f\<rparr>"
  shows "sched_inv (s\<lparr>timers := timers s @ [\<lparr>tid = next_id s, due = d, cb = f\<rparr>],
                      next_id := Suc (next_id s)\<rparr>)"
  using assms
  by (cases f) (auto simp: inv_defs cue_refs_append is_cue_timer_def list_all_iff
      split: option.splits)

lemma sched_inv_setTimeout:
  "sched_inv s \<Longrightarrow> f \<in> {ClearEmotion, BlinkOff, MouthOpen} \<Longrightarrow>
   sched_inv (snd (setTimeout f d s))"
  unfolding setTimeout_def snd_conv
  by (rule sched_inv_add_timer) (auto simp: is_cue_timer_def)

lemma sched_inv_filter:
  assumes "sched_inv s"
  shows "sched_inv (s\<lparr>timers := filter Q (timers s)\<rparr>)"
proof -
  have "set (cue_refs (filter Q (timers s))) \<subseteq> set (cue_refs (timers s))"
    by (rule cue_refs_filter_subset)
  with assms show ?thesis
    by (auto simp: inv_defs list_all_iff distinct_map_filter distinct_cue_refs_filter
        split: option.splits)
qed

lemma sched_inv_clearTimeout: "sched_inv s \<Longrightarrow> sched_inv (clearTimeout x s)"
  unfolding clearTimeout_def by (rule sched_inv_filter)

lemma sched_inv_clearScheduledEmotions:
  assumes "sched_inv s"
  shows "sched_inv (clearScheduledEmotions s)"
proof -
  have "tracked s" using assms by (simp add: sched_inv_def)
  then have none: "pending_fires (clearScheduledEmotions s) = []"
    by (rule pending_fires_cleared)
  then have refs: "cue_refs (filter (\<lambda>t. tid t \<notin> set (timeouts s)) (timers s)) = []"
    using pending_cues_fires [of "clearScheduledEmotions s"]
    by (simp add: pending_cues_def clearScheduledEmotions_eq)
  have "\<And>t. t \<in> set (timers s) \<Longrightarrow> tid t \<notin> set (timeouts s) \<Longrightarrow> \<not> is_cue_timer t"
    using \<open>tracked s\<close> by (auto simp: tracked_def list_all_iff)
  with assms refs show ?thesis
    by (auto simp: clearScheduledEmotions_eq inv_defs list_all_iff distinct_map_filter
        split: option.splits)
qed

lemma ids_tracked_schedule_cue:
  "ids_fresh s \<Longrightarrow> tracked s \<Longrightarrow>
   ids_fresh (schedule_cue i j c s) \<and> tracked (schedule_cue i j c s)"
  by (auto simp: schedule_cue_def setTimeout_def Let_def ids_fresh_def tracked_def list_all_iff)

lemma ids_tracked_schedule_loop:
  "ids_fresh s \<Longrightarrow> tracked s \<Longrightarrow>
   ids_fresh (schedule_loop i j cs s) \<and> tracked (schedule_loop i j cs s)"
proof (induction cs arbitrary: j s)
  case Nil
  then show ?case by simp
next
  case (Cons c cs)
  from ids_tracked_schedule_cue [OF Cons.prems]
  show ?case by (simp add: Cons.IH)
qed

lemma armed_cues:
  "map (\<lambda>(i, j, r). (i, j)) (armed i j pos cs) =
     map (Pair i) (map fst (filter (\<lambda>(k, c). \<not> consumed c \<and> time c - pos > 0) (enumerate j cs)))"
  by (simp add: armed_def case_prod_beta comp_def)

lemma distinct_armed: "distinct (map (\<lambda>(i, j, r). (i, j)) (armed i j pos cs))"
proof -
  have "distinct (map fst (enumerate j cs))" by simp
  then have "distinct (map fst
      (filter (\<lambda>(k, c). \<not> consumed c \<and> time c - pos > 0) (enumerate j cs)))"
    by (rule distinct_map_filter)
  moreover have "inj (Pair i)" by (simp add: inj_on_def)
  ultimately show ?thesis
    unfolding armed_cues by (subst distinct_map) (auto intro: inj_on_subset)
qed

lemma set_armed:
  "set (armed i 0 pos cs) =
     {(i, j, (time (cs ! j) - pos) * 1000) | j.
        j < length cs \<and> \<not> consumed (cs ! j) \<and> time (cs ! j) - pos > 0}"
  by (auto simp: armed_def in_set_enumerate_eq image_iff)

lemma sched_inv_scheduleEmotions:
  assumes "sched_inv s"
  shows "sched_inv (scheduleEmotions s)"
proof (cases "emotionSchedule s")
  case None
  with sched_inv_clearScheduledEmotions [OF assms] show ?thesis
    by (simp add: scheduleEmotions_def Let_def)
next
  case (Some i)
  define s1 where "s1 = clearScheduledEmotions s"
  define r where "r = schedule_loop i 0 (emotions (stories s ! i)) s1"
  have eq: "scheduleEmotions s = r"
    by (simp add: scheduleEmotions_def Let_def Some r_def s1_def)
  have inv1: "sched_inv s1"
    unfolding s1_def by (rule sched_inv_clearScheduledEmotions [OF assms])
  have i: "i < length (stories s)"
    using assms Some by (simp add: sched_inv_def schedule_ok_def)
  have none: "pending_fires s1 = []"
    unfolding s1_def using assms by (simp add: pending_fires_cleared sched_inv_def)
  have fires: "pending_fires r = armed i 0 (position s) (emotions (stories s ! i))"
    by (simp add: r_def pending_fires_schedule_loop none) (simp add: s1_def)
  have a: "ids_fresh r \<and> tracked r"
    unfolding r_def using inv1 by (intro ids_tracked_schedule_loop) (simp_all add: sched_inv_def)
  have b: "one_per_cue r"
    by (simp add: one_per_cue_def pending_cues_fires fires distinct_armed)
  have st: "stories r = stories s" "emotionSchedule r = emotionSchedule s"
    by (simp_all add: r_def s1_def)
  have c: "cues_live r"
    unfolding cues_live_def pending_cues_fires fires
    using i by (auto simp: list_all_iff set_armed st cue_at_def)
  have d: "schedule_ok r"
    using i by (simp add: schedule_ok_def st Some)
  show ?thesis
    unfolding eq using a b c d by (simp add: sched_inv_def)
qed

lemma sched_inv_pauseAudio: "sched_inv s \<Longrightarrow> sched_inv (pauseAudio s)"
  by (simp add: pauseAudio_def audio_pause_def sched_inv_clearScheduledEmotions)

lemma sched_inv_resumeAudio: "sched_inv s \<Longrightarrow> sched_inv (resumeAudio s)"
  by (simp add: resumeAudio_def audio_play_def Let_def sched_inv_scheduleEmotions)

lemma sched_inv_selectStory:
  assumes "sched_inv s"
  shows "sched_inv (snd (selectStory index s))"
proof (cases "0 \<le> index \<and> index < int (length (stories s))")
  case False
  with assms show ?thesis by (auto simp: selectStory_def)
next
  case True
  then have i: "nat index < length (stories s)" by auto
  define st where "st = (stories s ! nat index)
      \<lparr>emotions := map (\<lambda>e. e\<lparr>consumed := False\<rparr>) (emotions (stories s ! nat index))\<rparr>"
  have eq: "snd (selectStory index s) =
      s\<lparr>emotionSchedule := Some (nat index), stories := (stories s)[nat index := st],
        audio_el := \<lparr>src = audio st, currentTime = 0, paused = True\<rparr>\<rparr>"
    using True i by (simp add: selectStory_def Let_def audio_set_src_def st_def)
  have len: "length (emotions st) = length (emotions (stories s ! nat index))"
    by (simp add: st_def)
  have unc: "\<And>k. k < length (emotions st) \<Longrightarrow> \<not> consumed (emotions st ! k)"
    by (simp add: st_def)
  from assms i len unc show ?thesis
    unfolding eq
    by (auto simp: inv_defs list_all_iff nth_list_update split: option.splits)
qed

lemma sched_inv_click: "sched_inv s \<Longrightarrow> sched_inv (snd (click index s))"
  using sched_inv_selectStory [of s index]
  by (cases "selectStory index s")
     (auto simp: click_def intro!: sched_inv_resumeAudio split: option.splits)

lemma sched_inv_displayEmotion: "sched_inv s \<Longrightarrow> sched_inv (displayEmotion e s)"
  by (simp add: displayEmotion_def Let_def sched_inv_setTimeout)

lemma find_tid:
  "find (\<lambda>t. tid t = x) ts = Some t \<Longrightarrow> t \<in> set ts \<and> tid t = x"
  by (induction ts) (auto split: if_splits)

lemma nth_update_any: "(xs[i := x]) ! k = (if k = i \<and> i < length xs then x else xs ! k)"
  by (cases "i < length xs") (auto simp: nth_list_update list_update_beyond)

lemma set_consumed_fields [simp]:
  "timers (set_consumed i j s) = timers s"
  "timeouts (set_consumed i j s) = timeouts s"
  "next_id (set_consumed i j s) = next_id s"
  "now (set_consumed i j s) = now s"
  "audio_el (set_consumed i j s) = audio_el s"
  "emotionSchedule (set_consumed i j s) = emotionSchedule s"
  "length (stories (set_consumed i j s)) = length (stories s)"
  "length (emotions (stories (set_consumed i j s) ! a)) = length (emotions (stories s ! a))"
  by (simp_all add: set_consumed_def Let_def nth_update_any)

lemma cue_at_set_consumed:
  "cue_at (set_consumed i j s) a b =
     (if a = i \<and> b = j \<and> i < length (stories s) \<and> j < length (emotions (stories s ! i))
      then (cue_at s i j)\<lparr>consumed := True\<rparr> else cue_at s a b)"
  by (simp add: set_consumed_def Let_def cue_at_def nth_update_any)

lemma pending_set_consumed [simp]:
  "pending_cues (set_consumed i j s) = pending_cues s"
  "pending_fires (set_consumed i j s) = pending_fires s"
  by (simp_all add: pending_cues_def pending_fires_def)

lemma sched_inv_set_consumed:
  assumes "sched_inv s" "(i, j) \<notin> set (pending_cues s)"
  shows "sched_inv (set_consumed i j s)"
proof -
  have "cues_live (set_consumed i j s)"
    using assms
    by (auto simp: sched_inv_def cues_live_def list_all_iff cue_at_set_consumed)
  with assms(1) show ?thesis
    by (auto simp: sched_inv_def ids_fresh_def tracked_def one_per_cue_def schedule_ok_def
        split: option.splits)
qed

lemma sched_inv_fire:
  assumes "sched_inv s"
  shows "sched_inv (fire x s)"
proof (cases "find (\<lambda>t. tid t = x) (timers s)")
  case None
  with assms show ?thesis by (simp add: fire_def)
next
  case (Some t)
  then have t: "t \<in> set (timers s)" "tid t = x" by (auto dest: find_tid)
  have inv1: "sched_inv (clearTimeout x s)"
    by (rule sched_inv_clearTimeout [OF assms])
  show ?thesis
  proof (cases "cb t")
    case (FireCue i j)
    have "(i, j) \<notin> set (cue_refs (filter (\<lambda>u. tid u \<noteq> tid t) (timers s)))"
      using assms t FireCue
      by (intro cue_refs_removed) (simp_all add: sched_inv_def one_per_cue_def pending_cues_def)
    then have "(i, j) \<notin> set (pending_cues (clearTimeout x s))"
      by (simp add: pending_cues_def clearTimeout_def t)
    with inv1 have "sched_inv (set_consumed i j (clearTimeout x s))"
      by (rule sched_inv_set_consumed)
    then show ?thesis
      by (simp add: fire_def Some FireCue Let_def sched_inv_displayEmotion)
  qed (use inv1 in \<open>simp_all add: fire_def Some\<close>)
qed

lemma sched_inv_step: "sched_inv s \<Longrightarrow> sched_inv (step ev s)"
  by (cases ev)
     (simp_all add: sched_inv_selectStory sched_inv_click sched_inv_resumeAudio
        sched_inv_pauseAudio sched_inv_fire sched_inv_setTimeout ended_def audio_pause_def
        renderTick_def blinkTick_def mouthTick_def elapse_def progress_def)

lemma sched_inv_run: "sched_inv s \<Longrightarrow> sched_inv (run evs s)"
  unfolding run_def
  by (induction evs arbitrary: s) (simp_all add: sched_inv_step)

lemma sched_inv_loaded: "sched_inv (loaded sts img)"
  by (simp add: loaded_def inv_defs)

lemma sched_inv_init: "sched_inv (init sts img)"
proof -
  have "sched_inv (snd (selectStory 0 (loaded sts img)))"
    by (rule sched_inv_selectStory [OF sched_inv_loaded])
  moreover have "\<And>s. sched_inv s \<Longrightarrow> sched_inv (startClock s)"
    by (auto simp: startClock_def inv_defs list_all_iff split: option.splits)
  ultimately show ?thesis
    by (cases "selectStory 0 (loaded sts img)") (auto simp: init_def split: option.splits)
qed

subsection \<open>Firing a trigger\<close>


lemma displayEmotion_fields [simp]:
  "stories (displayEmotion e s) = stories s"
  "audio_el (displayEmotion e s) = audio_el s"
  "now (displayEmotion e s) = now s"
  "emotionSchedule (displayEmotion e s) = emotionSchedule s"
  "timeouts (displayEmotion e s) = timeouts s"
  "hasEnded (displayEmotion e s) = hasEnded s"
  "isPaused (displayEmotion e s) = isPaused s"
  "pending_fires (displayEmotion e s) = pending_fires s"
  "pending_cues (displayEmotion e s) = pending_cues s"
  "position (displayEmotion e s) = position s"
  "cue_at (displayEmotion e s) a b = cue_at s a b"
  by (simp_all add: displayEmotion_def setTimeout_def Let_def pending_fires_def
      pending_cues_def cue_fires_append cue_refs_append position_def cue_at_def)

lemma clearTimeout_fields [simp]:
  "stories (clearTimeout x s) = stories s"
  "audio_el (clearTimeout x s) = audio_el s"
  "now (clearTimeout x s) = now s"
  "emotionSchedule (clearTimeout x s) = emotionSchedule s"
  "timeouts (clearTimeout x s) = timeouts s"
  "hasEnded (clearTimeout x s) = hasEnded s"
  "isPaused (clearTimeout x s) = isPaused s"
  "position (clearTimeout x s) = position s"
  "cue_at (clearTimeout x s) a b = cue_at s a b"
  "timers (clearTimeout x s) = filter (\<lambda>t. tid t \<noteq> x) (timers s)"
  by (simp_all add: clearTimeout_def position_def cue_at_def)

lemma set_consumed_more [simp]:
  "position (set_consumed i j s) = position s"
  "hasEnded (set_consumed i j s) = hasEnded s"
  "isPaused (set_consumed i j s) = isPaused s"
  by (simp_all add: set_consumed_def Let_def position_def)

lemma fire_fields [simp]:
  "now (fire x s) = now s"
  "audio_el (fire x s) = audio_el s"
  "position (fire x s) = position s"
  "emotionSchedule (fire x s) = emotionSchedule s"
  "timeouts (fire x s) = timeouts s"
  "hasEnded (fire x s) = hasEnded s"
  "isPaused (fire x s) = isPaused s"
  "length (stories (fire x s)) = length (stories s)"
  "length (emotions (stories (fire x s) ! a)) = length (emotions (stories s ! a))"
proof -
  have *: "\<And>c r. now (run_callback c r) = now r \<and> audio_el (run_callback c r) = audio_el r \<and>
      emotionSchedule (run_callback c r) = emotionSchedule r \<and>
      timeouts (run_callback c r) = timeouts r \<and> hasEnded (run_callback c r) = hasEnded r \<and>
      isPaused (run_callback c r) = isPaused r \<and>
      length (stories (run_callback c r)) = length (stories r) \<and>
      length (emotions (stories (run_callback c r) ! a)) = length (emotions (stories r ! a))"
    subgoal for c r by (cases c) (simp_all add: Let_def)
    done
  show "now (fire x s) = now s" "audio_el (fire x s) = audio_el s"
    "emotionSchedule (fire x s) = emotionSchedule s" "timeouts (fire x s) = timeouts s"
    "hasEnded (fire x s) = hasEnded s" "isPaused (fire x s) = isPaused s"
    "length (stories (fire x s)) = length (stories s)"
    "length (emotions (stories (fire x s) ! a)) = length (emotions (stories s ! a))"
    by (simp_all add: fire_def * split: option.splits)
  then show "position (fire x s) = position s"
    by (simp add: position_def)
qed

lemma find_distinct:
  "distinct (map tid ts) \<Longrightarrow> t \<in> set ts \<Longrightarrow> find (\<lambda>u. tid u = tid t) ts = Some t"
  by (induction ts) (auto simp: image_iff)


lemma fire_cue:
  assumes "sched_inv s" "t \<in> set (timers s)" "cb t = FireCue i j"
  shows "fire (tid t) s =
           displayEmotion (emotion (cue_at s i j)) (set_consumed i j (clearTimeout (tid t) s))"
    and "consumed (cue_at (fire (tid t) s) i j)"
    and "(i, j) \<notin> set (pending_cues (fire (tid t) s))"
proof -
  have d: "distinct (map tid (timers s))" "distinct (cue_refs (timers s))"
    using assms(1) by (simp_all add: sched_inv_def ids_fresh_def one_per_cue_def pending_cues_def)
  have f: "find (\<lambda>u. tid u = tid t) (timers s) = Some t"
    by (rule find_distinct [OF d(1) assms(2)])
  have "(i, j) \<in> set (pending_cues s)"
    using assms(2,3) by (auto simp: pending_cues_def set_cue_refs)
  then have live: "i < length (stories s)" "j < length (emotions (stories s ! i))"
    using assms(1) by (auto simp: sched_inv_def cues_live_def list_all_iff)
  have em: "emotion (cue_at (set_consumed i j (clearTimeout (tid t) s)) i j) = emotion (cue_at s i j)"
    using live by (simp add: cue_at_set_consumed)
  show eq: "fire (tid t) s =
           displayEmotion (emotion (cue_at s i j)) (set_consumed i j (clearTimeout (tid t) s))"
    using em by (simp add: fire_def f assms(3) Let_def cue_at_def)
  show "consumed (cue_at (fire (tid t) s) i j)"
    using live by (simp add: eq cue_at_set_consumed)
  have "(i, j) \<notin> set (cue_refs (filter (\<lambda>x. tid x \<noteq> tid t) (timers s)))"
    by (rule cue_refs_removed [OF d(2) assms(2,3)])
  then show "(i, j) \<notin> set (pending_cues (fire (tid t) s))"
    by (simp add: eq) (simp add: pending_cues_def)
qed



lemma scheduleEmotions_fields [simp]:
  "stories (scheduleEmotions s) = stories s"
  "audio_el (scheduleEmotions s) = audio_el s"
  "now (scheduleEmotions s) = now s"
  "emotionSchedule (scheduleEmotions s) = emotionSchedule s"
  "isPaused (scheduleEmotions s) = isPaused s"
  "hasEnded (scheduleEmotions s) = hasEnded s"
  "keepMouthShut (scheduleEmotions s) = keepMouthShut s"
  "currentEmotion (scheduleEmotions s) = currentEmotion s"
  "faceImage (scheduleEmotions s) = faceImage s"
  by (simp_all add: scheduleEmotions_def Let_def split: option.splits)

lemma position_scheduleEmotions [simp]: "position (scheduleEmotions s) = position s"
  by (simp add: position_def)

lemma tracked_irrelevant [simp]:
  "tracked (s\<lparr>isPaused := b\<rparr>) = tracked s"
  "tracked (s\<lparr>keepMouthShut := b\<rparr>) = tracked s"
  "tracked (s\<lparr>hasEnded := b\<rparr>) = tracked s"
  "tracked (s\<lparr>audio_el := a\<rparr>) = tracked s"
  by (simp_all add: tracked_def)

lemma pending_fires_resumeAudio:
  assumes "tracked s" "\<not> hasEnded s"
  shows "pending_fires (resumeAudio s) =
           (case emotionSchedule s of None \<Rightarrow> []
            | Some i \<Rightarrow> armed i 0 (position s) (emotions (stories s ! i)))"
  using assms
  by (simp add: resumeAudio_def Let_def audio_play_def pending_fires_scheduleEmotions
      position_def split: option.splits)

lemma resumeAudio_fields [simp]:
  "stories (resumeAudio s) = stories s"
  "now (resumeAudio s) = now s"
  "emotionSchedule (resumeAudio s) = emotionSchedule s"
  "hasEnded (resumeAudio s) = hasEnded s"
  "position (resumeAudio s) = position s"
  "cue_at (resumeAudio s) a b = cue_at s a b"
  by (simp_all add: resumeAudio_def Let_def audio_play_def position_def cue_at_def)

lemma pauseAudio_fields [simp]:
  "stories (pauseAudio s) = stories s"
  "now (pauseAudio s) = now s"
  "emotionSchedule (pauseAudio s) = emotionSchedule s"
  "hasEnded (pauseAudio s) = hasEnded s"
  "position (pauseAudio s) = position s"
  "cue_at (pauseAudio s) a b = cue_at s a b"
  "isPaused (pauseAudio s)"
  "keepMouthShut (pauseAudio s)"
  "faceImage (pauseAudio s) = faceImage s"
  by (simp_all add: pauseAudio_def audio_pause_def position_def cue_at_def)

lemma pending_fires_pauseAudio: "sched_inv s \<Longrightarrow> pending_fires (pauseAudio s) = []"
  by (simp add: pauseAudio_def audio_pause_def sched_inv_def pending_fires_cleared)




lemma fire_remaining:
  assumes "t \<in> set (timers (fire x s))" "is_cue_timer t"
  shows "t \<in> set (timers s) \<and> tid t \<noteq> x"
proof (cases "find (\<lambda>u. tid u = x) (timers s)")
  case None
  with assms show ?thesis by (auto simp: fire_def find_None_iff)
next
  case (Some u)
  from assms show ?thesis
    by (cases "cb u")
       (auto simp: fire_def Some Let_def displayEmotion_def setTimeout_def is_cue_timer_def
          split: if_splits)
qed


lemma fold_fire_fields:
  "now (fold (\<lambda>u. fire (tid u)) xs s) = now s \<and>
   audio_el (fold (\<lambda>u. fire (tid u)) xs s) = audio_el s \<and>
   position (fold (\<lambda>u. fire (tid u)) xs s) = position s \<and>
   emotionSchedule (fold (\<lambda>u. fire (tid u)) xs s) = emotionSchedule s \<and>
   hasEnded (fold (\<lambda>u. fire (tid u)) xs s) = hasEnded s"
  by (induction xs arbitrary: s) simp_all



lemma fire_due_fields [simp]:
  "now (fire_due s) = now s"
  "audio_el (fire_due s) = audio_el s"
  "position (fire_due s) = position s"
  "emotionSchedule (fire_due s) = emotionSchedule s"
  "hasEnded (fire_due s) = hasEnded s"
  by (simp_all add: fire_due_def fold_fire_fields)
















subsection \<open>Cues without a pending trigger\<close>

lemma pending_cues_fire_subset: "set (pending_cues (fire x s)) \<subseteq> set (pending_cues s)"
proof
  fix p assume "p \<in> set (pending_cues (fire x s))"
  then obtain t where t: "t \<in> set (timers (fire x s))" "cb t = FireCue (fst p) (snd p)"
    by (auto simp: pending_cues_def set_cue_refs)
  then have "is_cue_timer t" by (simp add: is_cue_timer_def)
  from fire_remaining [OF t(1) this] t(2) show "p \<in> set (pending_cues s)"
    by (force simp: pending_cues_def set_cue_refs)
qed

lemma fire_other_cue:
  assumes "(i, j) \<notin> set (pending_cues s)"
  shows "cue_at (fire x s) i j = cue_at s i j"
proof (cases "find (\<lambda>t. tid t = x) (timers s)")
  case None
  then show ?thesis by (simp add: fire_def)
next
  case (Some t)
  then have t: "t \<in> set (timers s)" by (auto dest: find_tid)
  show ?thesis
  proof (cases "cb t")
    case (FireCue a b)
    with t have "(a, b) \<in> set (pending_cues s)"
      by (auto simp: pending_cues_def set_cue_refs)
    with assms have "(a, b) \<noteq> (i, j)" by auto
    then show ?thesis
      by (auto simp: fire_def Some FireCue Let_def cue_at_set_consumed)
  qed (simp_all add: fire_def Some cue_at_def)
qed



lemma armed_story: "list_all (\<lambda>(a, b, r). a = i) (armed i j pos cs)"
  by (auto simp: armed_def list_all_iff)

subsection \<open>Display\<close>

lemma displayEmotion_unmapped:
  "map_of emotionImageMap e = None \<Longrightarrow> map_of object_prototype e = None \<Longrightarrow>
   displayEmotion e s = s"
  by (simp add: displayEmotion_def js_get_def)

lemma inherited_truthy: "map_of object_prototype e = Some v \<Longrightarrow> truthy v"
  by (auto simp: object_prototype_def split: if_splits)

lemma displayEmotion_inherited:
  assumes "map_of emotionImageMap e = None" "map_of object_prototype e = Some v"
  shows "currentEmotion (displayEmotion e s) = Some e \<and>
         faceImage (displayEmotion e s) = qtBase @ template_str v \<and>
         timers (displayEmotion e s) =
           timers s @ [\<lparr>tid = next_id s, due = now s + emotionDelay, cb = ClearEmotion\<rparr>]"
  using assms inherited_truthy [OF assms(2)]
  by (simp add: displayEmotion_def js_get_def setTimeout_def Let_def)

lemma renderTick_paused: "isPaused s \<Longrightarrow> renderTick s = s"
  by (simp add: renderTick_def)

subsection \<open>Story selection\<close>

lemma selectStory_fields:
  "timers (snd (selectStory index s)) = timers s"
  "timeouts (snd (selectStory index s)) = timeouts s"
  "hasEnded (snd (selectStory index s)) = hasEnded s"
  "pending_cues (snd (selectStory index s)) = pending_cues s"
  by (simp_all add: selectStory_def Let_def audio_set_src_def pending_cues_def)

lemma selectStory_valid:
  assumes "0 \<le> index" "index < int (length (stories s))"
  shows "fst (selectStory index s) = None"
    and "emotionSchedule (snd (selectStory index s)) = Some (nat index)"
    and "i \<noteq> nat index \<Longrightarrow> cue_at (snd (selectStory index s)) i j = cue_at s i j"
  using assms by (simp_all add: selectStory_def Let_def audio_set_src_def cue_at_def)

lemma click_valid:
  assumes "0 \<le> index" "index < int (length (stories s))"
  shows "click index s = (None, resumeAudio ((snd (selectStory index s))\<lparr>hasEnded := False\<rparr>))"
  using selectStory_valid(1) [OF assms]
  by (cases "selectStory index s") (simp add: click_def)

lemma only_story_resumeAudio:
  assumes "sched_inv s" "emotionSchedule s = Some k" "\<not> hasEnded s"
  shows "only_story k (resumeAudio s)"
proof -
  have tr: "tracked s" using assms(1) by (simp add: sched_inv_def)
  have "pending_cues (resumeAudio s) =
      map (\<lambda>(a, b, r). (a, b)) (armed k 0 (position s) (emotions (stories s ! k)))"
    using pending_fires_resumeAudio [OF tr assms(3)] assms(2) by (simp add: pending_cues_fires)
  then show ?thesis
    using assms(2) by (auto simp: only_story_def list_all_iff armed_def)
qed

lemma selectStory_invalid:
  "index < 0 \<or> int (length (stories s)) \<le> index \<Longrightarrow> selectStory index s = (Some TypeError, s)"
  by (auto simp: selectStory_def)

lemma click_invalid:
  "index < 0 \<or> int (length (stories s)) \<le> index \<Longrightarrow> click index s = (Some TypeError, s)"
  by (simp add: click_def selectStory_invalid)

lemma length_stories_selectStory [simp]:
  "length (stories (snd (selectStory index s))) = length (stories s)"
  by (simp add: selectStory_def Let_def audio_set_src_def)

lemma length_stories_step [simp]: "length (stories (step ev s)) = length (stories s)"
proof (cases ev)
  case (Click index)
  then show ?thesis
    by (cases "selectStory index s")
       (auto simp: click_def split: option.splits
          dest: arg_cong [where f = "\<lambda>r. length (stories (snd r))"])
qed (simp_all add: ended_def audio_pause_def renderTick_def blinkTick_def mouthTick_def
      setTimeout_def elapse_def progress_def)

lemma only_story_reselect:
  assumes "sched_inv s" "only_story k s" "index = int k \<or> index < 0 \<or> int (length (stories s)) \<le> index"
  shows "only_story k (snd (selectStory index s))"
    and "only_story k (snd (click index s))"
proof -
  consider (bad) "index < 0 \<or> int (length (stories s)) \<le> index"
    | (good) "index = int k" "0 \<le> index" "index < int (length (stories s))"
    using assms(3) by fastforce
  then have "only_story k (snd (selectStory index s)) \<and> only_story k (snd (click index s))"
  proof cases
    case bad
    with assms(2) show ?thesis by (simp add: selectStory_invalid click_invalid)
  next
    case good
    have k: "nat index = k" using good(1) by simp
    define s1 where "s1 = (snd (selectStory index s))\<lparr>hasEnded := False\<rparr>"
    have sch: "emotionSchedule (snd (selectStory index s)) = Some k"
      using selectStory_valid(2) [OF good(2,3)] k by simp
    have one: "only_story k (snd (selectStory index s))"
      using assms(2) sch by (simp add: only_story_def selectStory_fields)
    have inv1: "sched_inv s1"
      unfolding s1_def using sched_inv_selectStory [OF assms(1)] by simp
    have "only_story k (resumeAudio s1)"
      by (rule only_story_resumeAudio [OF inv1]) (simp_all add: s1_def sch)
    then have "only_story k (snd (click index s))"
      by (simp add: click_valid [OF good(2,3)] s1_def)
    with one show ?thesis by simp
  qed
  then show "only_story k (snd (selectStory index s))" "only_story k (snd (click index s))"
    by simp_all
qed

lemma other_story_reselect:
  assumes "index = int k \<or> index < 0 \<or> int (length (stories s)) \<le> index" "i \<noteq> k"
  shows "cue_at (snd (selectStory index s)) i j = cue_at s i j"
    and "cue_at (snd (click index s)) i j = cue_at s i j"
proof -
  consider (bad) "index < 0 \<or> int (length (stories s)) \<le> index"
    | (good) "index = int k" "0 \<le> index" "index < int (length (stories s))"
    using assms(1) by fastforce
  then have "cue_at (snd (selectStory index s)) i j = cue_at s i j \<and>
      cue_at (snd (click index s)) i j = cue_at s i j"
  proof cases
    case bad
    then show ?thesis by (simp add: selectStory_invalid click_invalid)
  next
    case good
    have "i \<noteq> nat index" using good(1) assms(2) by simp
    from selectStory_valid(3) [OF good(2,3) this] show ?thesis
      by (simp add: click_valid [OF good(2,3)]) (simp add: cue_at_def)
  qed
  then show "cue_at (snd (selectStory index s)) i j = cue_at s i j"
    "cue_at (snd (click index s)) i j = cue_at s i j"
    by simp_all
qed

lemma only_story_step:
  assumes "sched_inv s" "only_story k s" "stays_on k (length (stories s)) ev"
  shows "only_story k (step ev s)"
proof (cases ev)
  case (SelectStory index)
  with assms show ?thesis by (simp add: only_story_reselect)
next
  case (Click index)
  with assms show ?thesis by (simp add: only_story_reselect)
next
  case Resume
  show ?thesis
  proof (cases "hasEnded s")
    case True
    with assms(2) show ?thesis
      by (simp add: Resume resumeAudio_def only_story_def pending_cues_def)
  next
    case False
    from assms(2) have "emotionSchedule s = Some k" by (simp add: only_story_def)
    from only_story_resumeAudio [OF assms(1) this False] show ?thesis
      by (simp add: Resume)
  qed
next
  case Pause
  have "pending_cues (pauseAudio s) = []"
    using pending_fires_pauseAudio [OF assms(1)] by (simp add: pending_cues_fires)
  with assms(2) show ?thesis by (simp add: Pause only_story_def)
next
  case (Fire x)
  from assms(2) pending_cues_fire_subset [of x s] show ?thesis
    by (auto simp: Fire only_story_def list_all_iff)
qed (use assms in \<open>simp_all add: only_story_def pending_cues_def ended_def audio_pause_def
      renderTick_def blinkTick_def mouthTick_def setTimeout_def cue_refs_append elapse_def
      progress_def\<close>)

lemma other_story_step:
  assumes "only_story k s" "stays_on k (length (stories s)) ev" "i \<noteq> k"
  shows "cue_at (step ev s) i j = cue_at s i j"
proof -
  have np: "(i, j) \<notin> set (pending_cues s)"
    using assms(1,3) by (auto simp: only_story_def list_all_iff)
  show ?thesis
  proof (cases ev)
    case (SelectStory index)
    with assms(2,3) show ?thesis by (simp add: other_story_reselect)
  next
    case (Click index)
    with assms(2,3) show ?thesis by (simp add: other_story_reselect)
  next
    case (Fire x)
    with fire_other_cue [OF np, of x] show ?thesis by simp
  qed (simp_all add: cue_at_def ended_def audio_pause_def
      renderTick_def blinkTick_def mouthTick_def setTimeout_def elapse_def progress_def)
qed

lemma other_story_run:
  "sched_inv s \<Longrightarrow> only_story k s \<Longrightarrow> list_all (stays_on k (length (stories s))) evs \<Longrightarrow>
   i \<noteq> k \<Longrightarrow>
   only_story k (run evs s) \<and> cue_at (run evs s) i j = cue_at s i j"
proof (induction evs arbitrary: s)
  case Nil
  then show ?case by (simp add: run_def)
next
  case (Cons ev evs)
  from Cons.prems have k: "stays_on k (length (stories s)) ev"
    "list_all (stays_on k (length (stories (step ev s)))) evs" by simp_all
  have "sched_inv (step ev s)" by (rule sched_inv_step [OF Cons.prems(1)])
  moreover have "only_story k (step ev s)"
    by (rule only_story_step [OF Cons.prems(1,2) k(1)])
  ultimately have "only_story k (run evs (step ev s)) \<and>
      cue_at (run evs (step ev s)) i j = cue_at (step ev s) i j"
    using k(2) Cons.prems(4) by (intro Cons.IH)
  with other_story_step [OF Cons.prems(2) k(1) Cons.prems(4)] show ?case
    by (simp add: run_def)
qed

lemma consumed_not_rearmed:
  assumes "sched_inv s" "consumed (cue_at s i j)"
  shows "(i, j) \<notin> set (pending_cues (resumeAudio s))"
proof
  assume "(i, j) \<in> set (pending_cues (resumeAudio s))"
  moreover have "cues_live (resumeAudio s)"
    using sched_inv_resumeAudio [OF assms(1)] by (simp add: sched_inv_def)
  ultimately have "\<not> consumed (cue_at (resumeAudio s) i j)"
    by (auto simp: cues_live_def list_all_iff)
  with assms(2) show False by simp
qed

lemma fire_unmapped_cue:
  assumes "sched_inv s" "t \<in> set (timers s)" "cb t = FireCue i j"
    and "map_of emotionImageMap (emotion (cue_at s i j)) = None"
    and "map_of object_prototype (emotion (cue_at s i j)) = None"
  shows "fire (tid t) s = set_consumed i j (clearTimeout (tid t) s)"
  using fire_cue(1) [OF assms(1-3)] displayEmotion_unmapped [OF assms(4,5)] by simp

section \<open>The claims\<close>



text \<open>
  \<^bold>\<open>C2.\<close> Claimed: \<open>selectStory(i)\<close> cancels every pending trigger of the story
  selected before, also when no \<open>resume()\<close> follows. \<open>selectStory\<close> does not touch
  the timers. They are cancelled by the re-arming of \<open>resumeAudio\<close>, which the click
  listener of a story button calls right after \<open>selectStory\<close>. What holds: after the
  click listener has run for a loaded story, every pending trigger belongs to that story,
  and this stays so, and the cues of every other story keep their flags, under every
  sequence of events in which no other story is selected (the clicked story may be
  selected or clicked again, and a selection with an index outside the list counts as
  none).
\<close>

theorem click_cancels_previous_story:
  assumes "sched_inv s" "0 \<le> index" "index < int (length (stories s))"
  shows "fst (click index s) = None \<and>
         timers (snd (selectStory index s)) = timers s \<and>
         list_all (\<lambda>p. fst p = nat index) (pending_cues (snd (click index s))) \<and>
         (\<forall>evs i j. list_all (stays_on (nat index) (length (stories s))) evs \<longrightarrow>
            i \<noteq> nat index \<longrightarrow>
            list_all (\<lambda>p. fst p = nat index) (pending_cues (run evs (snd (click index s)))) \<and>
            cue_at (run evs (snd (click index s))) i j = cue_at s i j)"
proof -
  define s1 where "s1 = (snd (selectStory index s))\<lparr>hasEnded := False\<rparr>"
  have cl: "click index s = (None, resumeAudio s1)"
    unfolding s1_def by (rule click_valid [OF assms(2,3)])
  have inv1: "sched_inv s1"
    unfolding s1_def using sched_inv_selectStory [OF assms(1)] by simp
  have sch: "emotionSchedule s1 = Some (nat index)" "\<not> hasEnded s1"
    using selectStory_valid(2) [OF assms(2,3)] by (simp_all add: s1_def)
  have os: "only_story (nat index) (resumeAudio s1)"
    by (rule only_story_resumeAudio [OF inv1 sch])
  have inv2: "sched_inv (resumeAudio s1)"
    by (rule sched_inv_resumeAudio [OF inv1])
  have len: "length (stories (resumeAudio s1)) = length (stories s)"
    by (simp add: s1_def)
  have same: "cue_at (resumeAudio s1) i j = cue_at s i j" if "i \<noteq> nat index" for i j
    using selectStory_valid(3) [OF assms(2,3) that] by (simp add: s1_def cue_at_def)
  have later: "list_all (\<lambda>p. fst p = nat index) (pending_cues (run evs (resumeAudio s1))) \<and>
      cue_at (run evs (resumeAudio s1)) i j = cue_at s i j"
    if "list_all (stays_on (nat index) (length (stories s))) evs" "i \<noteq> nat index" for evs i j
    using other_story_run [OF inv2 os that(1) [folded len] that(2)] same [OF that(2)]
    by (simp add: only_story_def)
  show ?thesis
    apply (intro conjI allI impI)
    subgoal by (simp add: cl)
    subgoal by (rule selectStory_fields)
    subgoal using os by (simp add: cl only_story_def)
    subgoal for evs i j using later [of evs i j] by (simp add: cl)
    subgoal for evs i j using later [of evs i j] by (simp add: cl)
    done
qed

text \<open>
  The first story is armed, then the second is clicked: no trigger of the first is left,
  and its first cue is never consumed, also when the second story is selected and clicked
  again and a click with the index 5 has thrown.
\<close>

theorem click_cancels_previous_story_witness:
  "sched_inv first_story_armed \<and>
   pending_cues first_story_armed = [(0, 0), (0, 1), (0, 2)] \<and>
   fst (click 1 first_story_armed) = None \<and>
   pending_cues (snd (click 1 first_story_armed)) = [(1, 0), (1, 1)] \<and>
   list_all (stays_on 1 2) [Elapse 2000, Fire 7, SelectStory 1, Click 5, Click 1, Pause, Resume] \<and>
   pending_cues (run [Elapse 2000, Fire 7, SelectStory 1, Click 5, Click 1, Pause, Resume]
                  (snd (click 1 first_story_armed))) = [(1, 0), (1, 1)] \<and>
   \<not> consumed (cue_at (run [Elapse 2000, Fire 7, SelectStory 1, Click 5, Click 1, Pause, Resume]
                        (snd (click 1 first_story_armed))) 0 0) \<and>
   pending_cues (run [Elapse 2000, Fire 7, Pause, Resume] (snd (click 1 first_story_armed)))
     = [(1, 1)]"
proof -
  have inv: "sched_inv first_story_armed"
    unfolding first_story_armed_def page_def by (rule sched_inv_run [OF sched_inv_init])
  have a: "(0::int) \<le> 1" "1 < int (length (stories first_story_armed))"
    by (simp_all add: first_story_armed_def script_defs demo_defs)
  have c: "fst (click 1 first_story_armed) = None"
    using click_cancels_previous_story [OF inv a, THEN conjunct1] .
  have e: "pending_cues first_story_armed = [(0, 0), (0, 1), (0, 2)]"
    "pending_cues (snd (click 1 first_story_armed)) = [(1, 0), (1, 1)]"
    "pending_cues (run [Elapse 2000, Fire 7, SelectStory 1, Click 5, Click 1, Pause, Resume]
                  (snd (click 1 first_story_armed))) = [(1, 0), (1, 1)]"
    "\<not> consumed (cue_at (run [Elapse 2000, Fire 7, SelectStory 1, Click 5, Click 1, Pause, Resume]
                        (snd (click 1 first_story_armed))) 0 0)"
    "pending_cues (run [Elapse 2000, Fire 7, Pause, Resume] (snd (click 1 first_story_armed)))
       = [(1, 1)]"
    by (simp_all add: first_story_armed_def script_defs demo_defs model_defs)
  from inv c e show ?thesis by simp
qed

text \<open>
  Against the claim as written: \<open>selectStory(1)\<close> alone, while the first story is
  armed, leaves its three triggers pending; two seconds later the first fires, consumes
  the cue of story 0 and shows its emotion.
\<close>

theorem selectStory_keeps_triggers_counterexample:
  "fst (selectStory 1 first_story_armed) = None \<and>
   emotionSchedule (snd (selectStory 1 first_story_armed)) = Some 1 \<and>
   pending_cues (snd (selectStory 1 first_story_armed)) = [(0, 0), (0, 1), (0, 2)] \<and>
   \<not> consumed (cue_at (snd (selectStory 1 first_story_armed)) 0 0) \<and>
   currentEmotion (snd (selectStory 1 first_story_armed)) = None \<and>
   consumed (cue_at (run [SelectStory 1, Elapse 2000, Fire 4] first_story_armed) 0 0) \<and>
   currentEmotion (run [SelectStory 1, Elapse 2000, Fire 4] first_story_armed) = Some ''joie''"
  by (simp add: first_story_armed_def script_defs demo_defs model_defs)

text \<open>
  \<^bold>\<open>C3.\<close> Claimed: when an overlay B is activated before the auto-clear of an
  earlier overlay A has run, A's clear does not reset the overlay while B is current, so B
  stays for its full \<open>emotionDelay\<close>. \<open>displayEmotion\<close> keeps no handle of the clear it
  schedules and the clear does not look at which emotion is current. With cues at 2 s and
  2.5 s: at 2.5 s the overlay is \<open>peur\<close> with its clear due at 3500 ms; at 3000 ms the
  clear of \<open>joie\<close> runs, \<open>currentEmotion\<close> becomes \<open>null\<close> and the next render tick
  replaces the image of \<open>peur\<close> by the idle face, 500 ms early.
\<close>

theorem stale_clear_ends_newer_overlay:
  "currentEmotion second_overlay = Some ''peur'' \<and>
   faceImage second_overlay = ''/qt/peur.png'' \<and>
   now second_overlay = 2500 \<and>
   timers second_overlay =
     [\<lparr>tid = 6, due = 5000, cb = FireCue 0 2\<rparr>,
      \<lparr>tid = 7, due = 3000, cb = ClearEmotion\<rparr>, \<lparr>tid = 8, due = 3500, cb = ClearEmotion\<rparr>] \<and>
   now (run [Elapse 500, Fire 7] second_overlay) = 3000 \<and>
   currentEmotion (run [Elapse 500, Fire 7] second_overlay) = None \<and>
   faceImage (run [Elapse 500, Fire 7, RenderTick] second_overlay) = qtBase @ normalOpen"
  by (simp add: second_overlay_def script_defs demo_defs)

text \<open>
  \<^bold>\<open>C4.\<close> Claimed: \<open>resume()\<close> in the state Ended changes nothing, the paused
  flag included. \<open>resumeAudio\<close> assigns \<open>isPaused = false\<close> before it tests
  \<open>hasEnded\<close>. What holds: with \<open>hasEnded\<close> set, \<open>resumeAudio\<close> does not play the
  audio, arms and cancels no trigger and leaves every variable as it is except
  \<open>isPaused\<close>, which becomes \<open>false\<close>.
\<close>

theorem resume_when_ended:
  "hasEnded s \<Longrightarrow> resumeAudio s = s\<lparr>isPaused := False\<rparr>"
  by (simp add: resumeAudio_def)

theorem resume_when_ended_witness:
  "hasEnded ended_then_paused \<and>
   resumeAudio ended_then_paused = ended_then_paused\<lparr>isPaused := False\<rparr>"
  using resume_when_ended [of ended_then_paused]
  by (simp add: ended_then_paused_def script_defs demo_defs)

text \<open>
  Against the claim as written: after the audio has ended and \<open>pauseAudio\<close> has run,
  \<open>resumeAudio\<close> changes the paused flag.
\<close>

theorem resume_when_ended_counterexample:
  "hasEnded ended_then_paused \<and> isPaused ended_then_paused \<and>
   \<not> isPaused (resumeAudio ended_then_paused) \<and>
   resumeAudio ended_then_paused \<noteq> ended_then_paused"
  by (simp add: ended_then_paused_def script_defs demo_defs)

text \<open>
  \<^bold>\<open>C5.\<close> Claimed: while paused the render tick leaves the image as it is, except
  that the image changes to the mouth-closed composition at the pause. The first half is
  lemma \<open>renderTick_paused\<close>. For the second half \<open>pauseAudio\<close> sets
  \<open>keepMouthShut\<close>, but it does not draw, and the render tick that would draw is the one
  suspended by \<open>isPaused\<close>: the mouth-open image shown when the pause comes stays.
\<close>

theorem pause_keeps_mouth_open_image:
  "faceImage playing_mouth_open = qtBase @ normalOpen \<and>
   keepMouthShut (pauseAudio playing_mouth_open) \<and>
   faceImage (pauseAudio playing_mouth_open) = qtBase @ normalOpen \<and>
   faceImage (renderTick (pauseAudio playing_mouth_open)) = qtBase @ normalOpen"
  by (simp add: playing_mouth_open_def script_defs demo_defs)




text \<open>
  \<^bold>\<open>C7.\<close> In every state the page can reach from its start by any sequence of
  events (calls of \<open>selectStory\<close>, \<open>resumeAudio\<close>, \<open>pauseAudio\<close>, clicks, the
  \<open>ended\<close> event, ticks, timers firing, time passing), no two pending triggers fire the
  same cue, and every cue with a pending trigger is unconsumed. In particular this holds
  after two calls of \<open>pauseAudio\<close> in a row and after two calls of \<open>resumeAudio\<close>
  in a row.
\<close>

theorem at_most_one_trigger_per_cue:
  "distinct (pending_cues (run evs (init sts img))) \<and>
   cues_live (run evs (init sts img)) \<and>
   distinct (pending_cues (pauseAudio (pauseAudio (run evs (init sts img))))) \<and>
   distinct (pending_cues (resumeAudio (resumeAudio (run evs (init sts img)))))"
proof -
  have inv: "sched_inv (run evs (init sts img))"
    by (rule sched_inv_run [OF sched_inv_init])
  from inv have "sched_inv (pauseAudio (pauseAudio (run evs (init sts img))))"
    by (intro sched_inv_pauseAudio)
  moreover from inv have "sched_inv (resumeAudio (resumeAudio (run evs (init sts img))))"
    by (intro sched_inv_resumeAudio)
  ultimately show ?thesis
    using inv by (simp add: sched_inv_def one_per_cue_def)
qed

theorem at_most_one_trigger_per_cue_witness:
  "pending_cues (run [Click 0, Resume] (init [tale_a, tale_b] [])) = [(0, 0), (0, 1), (0, 2)] \<and>
   distinct (pending_cues (run [Click 0, Resume] (init [tale_a, tale_b] []))) \<and>
   pending_cues (pauseAudio (pauseAudio (run [Click 0, Resume] (init [tale_a, tale_b] [])))) = [] \<and>
   pending_cues (resumeAudio (resumeAudio (run [Click 0, Resume] (init [tale_a, tale_b] []))))
     = [(0, 0), (0, 1), (0, 2)]"
  using at_most_one_trigger_per_cue [of "[Click 0, Resume]" "[tale_a, tale_b]" "[]"]
  by (simp add: script_defs demo_defs model_defs)

text \<open>
  \<^bold>\<open>C8.\<close> Claimed: \<open>displayEmotion\<close> with a key that has no entry in
  \<open>CONFIG.emotionImageMap\<close> does nothing. This is lemma \<open>displayEmotion_unmapped\<close>
  for every key that is not a property name of \<open>Object.prototype\<close> either. The guard
  \<open>if (CONFIG.emotionImageMap[emotion])\<close> also finds inherited properties (lemma
  \<open>displayEmotion_inherited\<close>): for the key
  \<open>constructor\<close>, which has no entry, the overlay emotion is set, the image source is
  built from the text of a built-in function, and an auto-clear is scheduled.
\<close>

theorem displayEmotion_inherited_key:
  "map_of emotionImageMap ''constructor'' = None \<and>
   currentEmotion page = None \<and>
   currentEmotion (displayEmotion ''constructor'' page) = Some ''constructor'' \<and>
   faceImage page = ''/qt/normal2.png'' \<and>
   faceImage (displayEmotion ''constructor'' page) = ''/qt/function Object() { [native code] }'' \<and>
   timers page = [] \<and>
   timers (displayEmotion ''constructor'' page) = [\<lparr>tid = 4, due = 1000, cb = ClearEmotion\<rparr>]"
  by (simp add: script_defs demo_defs)

text \<open>
  \<^bold>\<open>C9.\<close> \<open>selectStory\<close> with an index below 0 or not below the number of loaded
  stories throws (a \<open>TypeError\<close>) and leaves the state as it was: the installed
  timeline, the flags of all cues and the audio source included.
\<close>

theorem selectStory_out_of_range:
  "index < 0 \<or> int (length (stories s)) \<le> index \<Longrightarrow>
   fst (selectStory index s) = Some TypeError \<and> snd (selectStory index s) = s"
  by (auto simp: selectStory_def)

theorem selectStory_out_of_range_witness:
  "fst (selectStory 2 page) = Some TypeError \<and> snd (selectStory 2 page) = page \<and>
   fst (selectStory (- 1) page) = Some TypeError \<and> snd (selectStory (- 1) page) = page"
  using selectStory_out_of_range [of 2 page] selectStory_out_of_range [of "- 1" page]
  by (simp add: script_defs demo_defs)

text \<open>
  \<^bold>\<open>C10.\<close> Claimed: a fired trigger sets \<open>consumed\<close> before it tries the overlay,
  so a cue whose emotion has no display mapping is consumed, displays nothing and is not
  armed again by a later resume. The order and the consequences for the flag hold for
  every cue (lemmas \<open>fire_cue\<close>, \<open>consumed_not_rearmed\<close>), and nothing is displayed
  when the key is not a property name of \<open>Object.prototype\<close> either (lemma
  \<open>fire_unmapped_cue\<close>). A cue tagged \<open>constructor\<close> has no display mapping, yet when
  its trigger fires the overlay is activated, through the inherited property that the
  guard of \<open>displayEmotion\<close> finds.
\<close>

theorem fired_cue_with_inherited_key:
  "emotion (cue_at page 1 0) = ''constructor'' \<and>
   map_of emotionImageMap ''constructor'' = None \<and>
   consumed (cue_at inherited_key_fired 1 0) \<and>
   currentEmotion inherited_key_fired = Some ''constructor'' \<and>
   faceImage inherited_key_fired = ''/qt/function Object() { [native code] }'' \<and>
   timers inherited_key_fired =
     [\<lparr>tid = 5, due = 3000, cb = FireCue 1 1\<rparr>, \<lparr>tid = 6, due = 2000, cb = ClearEmotion\<rparr>] \<and>
   pending_cues (run [Pause, Resume] inherited_key_fired) = [(1, 1)]"
  by (simp add: inherited_key_fired_def script_defs demo_defs model_defs)

end
